theory Spec2Isabelle
  imports Complex_Main "HOL-Library.Word" "HOL-Library.Signed_Division"
begin

section \<open>Rectangles\<close>

text \<open>
  Modelled from the spec: the rectangle types \<^verbatim>\<open>Rect\<close> and \<^verbatim>\<open>RectF\<close> of
  \<^verbatim>\<open>core/rect.h\<close>, which \<^verbatim>\<open>region.h\<close> includes and which is not among the sources.
  The spec describes a rectangle as four coordinates \<open>(x1, y1, x2, y2)\<close>, half-open,
  empty iff \<open>x1 \<ge> x2 \<or> y1 \<ge> y2\<close>, built from \<open>(x, y, width, height)\<close>, and
  exposing left, top, right, bottom, width and height. The coordinate type is a
  parameter: \<open>int\<close> for \<^verbatim>\<open>Rect\<close> (the values of C++ \<^verbatim>\<open>int\<close>, read as the
  integers they denote) and \<open>real\<close> for \<^verbatim>\<open>RectF\<close>.
  A default-constructed rectangle has all four coordinates zero, and two rectangles
  are equal when their four coordinates are.
\<close>

record 'a Rect =
  r_left :: 'a
  r_top :: 'a
  r_right :: 'a
  r_bottom :: 'a

text \<open>
  Modelled from the spec: the constructors and inspectors of \<^verbatim>\<open>Rect\<close> (\<^verbatim>\<open>core/rect.h\<close>):
  \<^verbatim>\<open>Rect(x, y, width, height)\<close>, the default \<^verbatim>\<open>Rect()\<close>, \<^verbatim>\<open>width()\<close>, \<^verbatim>\<open>height()\<close>,
  \<^verbatim>\<open>isEmpty()\<close> ("empty iff \<open>x1 \<ge> x2 \<or> y1 \<ge> y2\<close>") and \<^verbatim>\<open>operator==\<close>.
\<close>

definition Rect_xywh :: "'a::linordered_idom \<Rightarrow> 'a \<Rightarrow> 'a \<Rightarrow> 'a \<Rightarrow> 'a Rect" where
  "Rect_xywh x y w h = \<lparr>r_left = x, r_top = y, r_right = x + w, r_bottom = y + h\<rparr>"

definition Rect_default :: "'a::linordered_idom Rect" where
  "Rect_default = \<lparr>r_left = 0, r_top = 0, r_right = 0, r_bottom = 0\<rparr>"

definition r_width :: "'a::linordered_idom Rect \<Rightarrow> 'a" where
  "r_width r = r_right r - r_left r"

definition r_height :: "'a::linordered_idom Rect \<Rightarrow> 'a" where
  "r_height r = r_bottom r - r_top r"

definition rect_isEmpty :: "'a::linordered_idom Rect \<Rightarrow> bool" where
  "rect_isEmpty r = (r_right r \<le> r_left r \<or> r_bottom r \<le> r_top r)"

definition rect_eq :: "'a::linordered_idom Rect \<Rightarrow> 'a Rect \<Rightarrow> bool" where
  "rect_eq a b =
     (r_left a = r_left b \<and> r_top a = r_top b \<and> r_right a = r_right b \<and> r_bottom a = r_bottom b)"

section \<open>The region classes\<close>

text \<open>
  \<^verbatim>\<open>class Region { QList<Rect> m_rects; Rect m_bounds; }\<close> and its twin
  \<^verbatim>\<open>class RegionF { QList<RectF> m_rects; RectF m_bounds; }\<close>. The two classes have
  the same inline members, word for word, so one record with the coordinate type as
  parameter stands for both.
\<close>

record 'a Region =
  m_rects :: "'a Rect list"
  m_bounds :: "'a Rect"

type_synonym RegionI = "int Region"
type_synonym RegionF = "real Region"

text \<open>\<^verbatim>\<open>Region::Region()\<close>: both members default-constructed.\<close>

definition Region_empty :: "'a::linordered_idom Region" where
  "Region_empty = \<lparr>m_rects = [], m_bounds = Rect_default\<rparr>"

text \<open>
  \<^verbatim>\<open>Region::Region(int x, int y, int width, int height) : m_bounds(x, y, width, height)\<close>
  and \<^verbatim>\<open>Region::Region(const Rect &rect) : m_bounds(rect)\<close>: only the bounds are
  initialised, the list stays empty.
\<close>

definition Region_xywh :: "'a::linordered_idom \<Rightarrow> 'a \<Rightarrow> 'a \<Rightarrow> 'a \<Rightarrow> 'a Region" where
  "Region_xywh x y w h = \<lparr>m_rects = [], m_bounds = Rect_xywh x y w h\<rparr>"

definition Region_rect :: "'a::linordered_idom Rect \<Rightarrow> 'a Region" where
  "Region_rect rect = \<lparr>m_rects = [], m_bounds = rect\<rparr>"


subsection \<open>Equality\<close>

text \<open>
  \<^verbatim>\<open>QList::operator==\<close> compares the sizes and then the elements in order.
\<close>

fun qlist_eq :: "'a::linordered_idom Rect list \<Rightarrow> 'a Rect list \<Rightarrow> bool" where
  "qlist_eq [] [] = True"
| "qlist_eq (x # xs) (y # ys) = (rect_eq x y \<and> qlist_eq xs ys)"
| "qlist_eq _ _ = False"

text \<open>
  \<^verbatim>\<open>Region::operator==\<close>:
  \<^verbatim>\<open>return m_bounds == other.m_bounds && m_rects == other.m_rects;\<close>
\<close>

definition region_eq :: "'a::linordered_idom Region \<Rightarrow> 'a Region \<Rightarrow> bool" where
  "region_eq this other =
     (rect_eq (m_bounds this) (m_bounds other) \<and> qlist_eq (m_rects this) (m_rects other))"

subsection \<open>The bounding rectangle\<close>


subsection \<open>The infinite region\<close>

text \<open>
  \<^verbatim>\<open>std::numeric_limits<int>::min()\<close> and \<^verbatim>\<open>max()\<close> for the 32-bit \<^verbatim>\<open>int\<close>, and the
  division of C++, which truncates towards zero.
\<close>

definition INT_MIN :: "32 word" where
  "INT_MIN = - (2 ^ 31)"

definition INT_MAX :: "32 word" where
  "INT_MAX = 2 ^ 31 - 1"

definition int_div :: "32 word \<Rightarrow> 32 word \<Rightarrow> 32 word" where
  "int_div a b = word_of_int (sint a sdiv sint b)"

text \<open>
  \<^verbatim>\<open>Region::infinite()\<close>:
  \<^verbatim>\<open>return Region(min() / 2, min() / 2, max(), max());\<close>
\<close>

definition Region_infinite :: "RegionI" where
  "Region_infinite =
     Region_xywh (sint (int_div INT_MIN 2)) (sint (int_div INT_MIN 2)) (sint INT_MAX) (sint INT_MAX)"

text \<open>
  \<^verbatim>\<open>std::numeric_limits<qreal>::min()\<close> and \<^verbatim>\<open>max()\<close> for \<^verbatim>\<open>qreal = double\<close>
  (IEEE-754 binary64): \<^verbatim>\<open>min()\<close> is the smallest positive normal number,
  \<open>2\<^sup>-\<^sup>1\<^sup>0\<^sup>2\<^sup>2\<close>, and \<^verbatim>\<open>max()\<close> is the largest finite one,
  \<open>(2\<^sup>5\<^sup>3 - 1) \<sqdot> 2\<^sup>9\<^sup>7\<^sup>1\<close>. Halving \<^verbatim>\<open>min()\<close> is exact (the result is the
  subnormal \<open>2\<^sup>-\<^sup>1\<^sup>0\<^sup>2\<^sup>3\<close>).
\<close>

definition qreal_min :: real where
  "qreal_min = 1 / 2 ^ 1022"

definition qreal_max :: real where
  "qreal_max = (2 ^ 53 - 1) * 2 ^ 971"

text \<open>
  \<^verbatim>\<open>RegionF::infinite()\<close>:
  \<^verbatim>\<open>return RegionF(min() / 2, min() / 2, max(), max());\<close>
  The left and top coordinates are the arguments as passed; the right and bottom
  coordinates of the model are exact sums, where the machine rounds.
\<close>

definition RegionF_infinite :: "RegionF" where
  "RegionF_infinite = Region_xywh (qreal_min / 2) (qreal_min / 2) qreal_max qreal_max"

subsection \<open>Moving\<close>

text \<open>
  \<^verbatim>\<open>std::exchange(obj, new_value)\<close> stores \<open>new_value\<close> in \<open>obj\<close> and returns the
  value \<open>obj\<close> held before: the pair is (returned value, new content of \<open>obj\<close>).
\<close>

definition exchange :: "'v \<Rightarrow> 'v \<Rightarrow> 'v \<times> 'v" where
  "exchange obj new_value = (obj, new_value)"

text \<open>
  \<^verbatim>\<open>Region::Region(Region &&other)
      : m_rects(std::exchange(other.m_rects, {}))
      , m_bounds(std::exchange(other.m_bounds, {}))\<close>
  The object under construction is new, so it cannot be \<open>other\<close>: the result is the
  pair (constructed region, \<open>other\<close> afterwards).
\<close>

definition Region_move :: "'a::linordered_idom Region \<Rightarrow> 'a Region \<times> 'a Region" where
  "Region_move other =
     (let (rects, other_rects) = exchange (m_rects other) [];
          other1 = other\<lparr>m_rects := other_rects\<rparr>;
          (bounds, other_bounds) = exchange (m_bounds other1) Rect_default;
          other2 = other1\<lparr>m_bounds := other_bounds\<rparr>
      in (\<lparr>m_rects = rects, m_bounds = bounds\<rparr>, other2))"

text \<open>
  Move assignment can be handed the object itself, so the regions live in a store,
  addressed by numbers, and \<open>this\<close> and \<open>other\<close> are addresses.
  \<^verbatim>\<open>Region &Region::operator=(Region &&other)
  {
      m_rects = std::exchange(other.m_rects, {});
      m_bounds = std::exchange(other.m_bounds, {});
      return *this;
  }\<close>
  Each statement first runs \<^verbatim>\<open>std::exchange\<close> on the member of \<open>other\<close> and then
  assigns the returned value to the member of \<open>this\<close>.
\<close>

type_synonym 'a store = "nat \<Rightarrow> 'a Region"

definition move_assign :: "'a::linordered_idom store \<Rightarrow> nat \<Rightarrow> nat \<Rightarrow> 'a store" where
  "move_assign s this other =
     (let (rects, other_rects) = exchange (m_rects (s other)) [];
          s1 = s(other := (s other)\<lparr>m_rects := other_rects\<rparr>);
          s2 = s1(this := (s1 this)\<lparr>m_rects := rects\<rparr>);
          (bounds, other_bounds) = exchange (m_bounds (s2 other)) Rect_default;
          s3 = s2(other := (s2 other)\<lparr>m_bounds := other_bounds\<rparr>);
          s4 = s3(this := (s3 this)\<lparr>m_bounds := bounds\<rparr>)
      in s4)"

subsection \<open>The rectangle overloads of the set operations\<close>

text \<open>
  \<^verbatim>\<open>Region Region::united(const Rect &other) const { return united(Region(other)); }\<close>
  and likewise \<^verbatim>\<open>subtracted\<close>, \<^verbatim>\<open>xored\<close> and \<^verbatim>\<open>intersected\<close>. The region
  overloads they call are defined in \<^verbatim>\<open>region.cpp\<close>, which is not among the sources:
  each is a parameter here.
\<close>

definition united_rect ::
  "('a::linordered_idom Region \<Rightarrow> 'a Region \<Rightarrow> 'a Region) \<Rightarrow> 'a Region \<Rightarrow> 'a Rect \<Rightarrow> 'a Region" where
  "united_rect united this other = united this (Region_rect other)"

definition subtracted_rect ::
  "('a::linordered_idom Region \<Rightarrow> 'a Region \<Rightarrow> 'a Region) \<Rightarrow> 'a Region \<Rightarrow> 'a Rect \<Rightarrow> 'a Region" where
  "subtracted_rect subtracted this other = subtracted this (Region_rect other)"

definition xored_rect ::
  "('a::linordered_idom Region \<Rightarrow> 'a Region \<Rightarrow> 'a Region) \<Rightarrow> 'a Region \<Rightarrow> 'a Rect \<Rightarrow> 'a Region" where
  "xored_rect xored this other = xored this (Region_rect other)"

definition intersected_rect ::
  "('a::linordered_idom Region \<Rightarrow> 'a Region \<Rightarrow> 'a Region) \<Rightarrow> 'a Region \<Rightarrow> 'a Rect \<Rightarrow> 'a Region" where
  "intersected_rect intersected this other = intersected this (Region_rect other)"

section \<open>The members defined in region.cpp\<close>

text \<open>
  \<^verbatim>\<open>region.cpp\<close> is not among the sources. The members below are declared in the
  header; what they compute is taken from the spec (sections 3, 4.1 to 4.4 and 6).
\<close>

subsection \<open>The rectangles of a region, its bounds, the sorted constructor\<close>

text \<open>
  Modelled from the spec: \<^verbatim>\<open>Region::rects()\<close>, declared in the header ("Returns the
  rectangles that this region is made of"), body in \<^verbatim>\<open>region.cpp\<close>. The spec:
  "\<open>rects()\<close> returning a read-only view of the canonical list", a list of non-empty
  rectangles. The header's constructor from a rectangle ("Constructs a region with the
  given rect rectangle") keeps that rectangle in \<open>m_bounds\<close> and leaves \<open>m_rects\<close>
  empty, so a region with no stored list is made of its bounds, when they are not empty.
\<close>

definition rects :: "'a::linordered_idom Region \<Rightarrow> 'a Rect list" where
  "rects this =
     (if m_rects this = []
      then (if rect_isEmpty (m_bounds this) then [] else [m_bounds this])
      else m_rects this)"

text \<open>
  Modelled from the spec: the union of the bounds of two rectangles (\<^verbatim>\<open>core/rect.h\<close>),
  component-wise.
\<close>

definition rect_united :: "'a::linordered_idom Rect \<Rightarrow> 'a Rect \<Rightarrow> 'a Rect" where
  "rect_united a b =
     \<lparr>r_left = min (r_left a) (r_left b), r_top = min (r_top a) (r_top b),
      r_right = max (r_right a) (r_right b), r_bottom = max (r_bottom a) (r_bottom b)\<rparr>"

text \<open>
  Modelled from the spec: \<^verbatim>\<open>Region::computeBounds()\<close> (private, declared in the header).
  The spec: "B equals the union of all rectangles' bounds, or the empty rectangle if
  the region is empty".
\<close>

definition computeBounds :: "'a::linordered_idom Rect list \<Rightarrow> 'a Rect" where
  "computeBounds rs = (case rs of [] \<Rightarrow> Rect_default | r # rs' \<Rightarrow> foldl rect_united r rs')"

text \<open>
  Modelled from the spec: \<^verbatim>\<open>Region::assignSortedRects(rects)\<close> (private, declared in
  the header), which stores a sorted rectangle list in the region. The spec: "Accept
  verbatim; just copy and recompute B", and "Empty input yields the empty region". A
  list of one rectangle is stored the way the header's \<^verbatim>\<open>Region(const Rect &)\<close> stores
  the region of one rectangle, as the bounds with no list, so that the region of a
  rectangle has one representation and \<^verbatim>\<open>operator==\<close>, which compares the members,
  compares the rectangles.
\<close>

definition assignSortedRects :: "'a::linordered_idom Rect list \<Rightarrow> 'a Region" where
  "assignSortedRects rs =
     (case rs of
        [] \<Rightarrow> Region_empty
      | [r] \<Rightarrow> Region_rect r
      | _ \<Rightarrow> \<lparr>m_rects = rs, m_bounds = computeBounds rs\<rparr>)"

text \<open>
  Modelled from the spec: \<^verbatim>\<open>Region::fromSortedRects(rects)\<close>. The spec: "input is
  already in canonical form. Accept verbatim; just copy and recompute B".
\<close>

definition fromSortedRects :: "'a::linordered_idom Rect list \<Rightarrow> 'a Region" where
  "fromSortedRects rs = assignSortedRects rs"


text \<open>
  The representation the constructors and \<^verbatim>\<open>assignSortedRects\<close> produce: no stored list
  for a region of no or one rectangle, whose bounds are then that rectangle or, when
  there is none, the default rectangle; a stored list of two or more rectangles, with
  their bounds.
\<close>

definition wellStored :: "'a::linordered_idom Region \<Rightarrow> bool" where
  "wellStored r =
     (case m_rects r of
        [] \<Rightarrow> \<not> rect_isEmpty (m_bounds r) \<or> m_bounds r = Rect_default
      | [x] \<Rightarrow> False
      | _ \<Rightarrow> m_bounds r = computeBounds (m_rects r))"



subsection \<open>The canonical form\<close>

text \<open>
  Modelled from the spec: invariants 1, 2 and 4 of the canonical form, on neighbours of
  the list. No rectangle is empty; a rectangle and its successor either lie in one band
  (same top, same bottom) with the successor strictly to the right and not touching, or
  the successor starts a band at or below the bottom of this one. (Invariant 3, no two
  touching bands with the same footprint, is not needed below: every canonical list is
  banded.)
\<close>

fun banded :: "'a::linordered_idom Rect list \<Rightarrow> bool" where
  "banded [] = True"
| "banded [r] = (\<not> rect_isEmpty r)"
| "banded (a # b # rs) =
     (\<not> rect_isEmpty a
      \<and> ((r_top a = r_top b \<and> r_bottom a = r_bottom b \<and> r_right a < r_left b)
           \<or> r_bottom a \<le> r_top b)
      \<and> banded (b # rs))"

text \<open>
  Modelled from the spec: the rectangles of one band, invariant 2: each has left before
  right, and each ends strictly before the next begins.
\<close>

fun okband :: "'a::linordered_idom Rect list \<Rightarrow> bool" where
  "okband [] = True"
| "okband [r] = (r_left r < r_right r)"
| "okband (a # b # rs) = (r_left a < r_right a \<and> r_right a < r_left b \<and> okband (b # rs))"

text \<open>
  Modelled from the spec: the bands of a list, "a maximal run of rectangles in the
  canonical list sharing top and bottom", recovered "by a single pass over the list,
  exploiting the equal-top invariant within a band".
\<close>

fun bands :: "'a Rect list \<Rightarrow> 'a Rect list list" where
  "bands [] = []"
| "bands (r # rs) =
     (case bands rs of
        [] \<Rightarrow> [[r]]
      | [] # bs \<Rightarrow> [r] # bs
      | (q # qs) # bs \<Rightarrow> if r_top q = r_top r then (r # q # qs) # bs else [r] # (q # qs) # bs)"

text \<open>
  Modelled from the spec: the band at the front of a list (the rectangles that share the
  top of the first one) and the list behind it.
\<close>

definition bandOf :: "'a Rect list \<Rightarrow> 'a Rect list" where
  "bandOf rs = (case rs of [] \<Rightarrow> [] | r # _ \<Rightarrow> takeWhile (\<lambda>q. r_top q = r_top r) rs)"

definition afterBand :: "'a Rect list \<Rightarrow> 'a Rect list" where
  "afterBand rs = (case rs of [] \<Rightarrow> [] | r # _ \<Rightarrow> dropWhile (\<lambda>q. r_top q = r_top r) rs)"

subsection \<open>Appending a band and coalescing\<close>

text \<open>
  \<^verbatim>\<open>struct BandRef { qsizetype start = 0; qsizetype end = 0; }\<close> (private, in the
  header): the indices of a band in the list under construction.
\<close>

record BandRef =
  b_start :: nat
  b_end :: nat

type_synonym 'a span = "'a \<times> 'a"

text \<open>
  The operations build the result list band by band: the state is the list so far and
  the \<^verbatim>\<open>BandRef\<close> of the last band appended.
\<close>

type_synonym 'a scan = "'a Rect list \<times> BandRef"

text \<open>
  Modelled from the spec: a rectangle of a band over \<open>[top, bottom)\<close> from its columns
  \<open>(left, right)\<close>; the footprint of a band, "the sequence of (left, right) pairs of
  the rectangles within a band"; and the rectangles a \<^verbatim>\<open>BandRef\<close> identifies, from
  index \<open>start\<close> up to \<open>end\<close>.
\<close>

definition band_rect :: "'a \<Rightarrow> 'a \<Rightarrow> 'a span \<Rightarrow> 'a Rect" where
  "band_rect ytop ybottom s = \<lparr>r_left = fst s, r_top = ytop, r_right = snd s, r_bottom = ybottom\<rparr>"

definition footprint :: "'a Rect list \<Rightarrow> 'a span list" where
  "footprint band = map (\<lambda>r. (r_left r, r_right r)) band"

definition band_slice :: "'a Rect list \<Rightarrow> BandRef \<Rightarrow> 'a Rect list" where
  "band_slice rs band = take (b_end band - b_start band) (drop (b_start band) rs)"

text \<open>
  Modelled from the spec: \<^verbatim>\<open>Region::coalesceBands(previous, current)\<close> (4.4). The
  current band is the end of the list and the previous band lies right before it. "If
  the previously appended band satisfies \<open>bottom\<^sub>k\<^sub>-\<^sub>1 == top\<^sub>k\<close> and \<open>F\<^sub>k\<^sub>-\<^sub>1 == F\<^sub>k\<close>
  (identical left/right pairs, in order), then rewrite both bands as a single band
  over \<open>[top\<^sub>k\<^sub>-\<^sub>1, bottom\<^sub>k)\<close>": the rectangles of the current band take the place of
  the previous ones, with the previous top.
\<close>

definition coalesceBands :: "'a::linordered_idom Rect list \<Rightarrow> BandRef \<Rightarrow> BandRef \<Rightarrow> 'a scan" where
  "coalesceBands rs previous current =
     (let prev = band_slice rs previous; cur = band_slice rs current
      in if prev \<noteq> [] \<and> cur \<noteq> [] \<and> r_bottom (hd prev) = r_top (hd cur)
            \<and> footprint prev = footprint cur
         then (take (b_start previous) rs @ map (\<lambda>r. r\<lparr>r_top := r_top (hd prev)\<rparr>) cur,
               \<lparr>b_start = b_start previous, b_end = b_start previous + length cur\<rparr>)
         else (rs, current))"

text \<open>
  Modelled from the spec: appending an output band over \<open>[top, bottom)\<close> with the given
  columns; "after each append the driver invokes coalesceBands against lastBand".
\<close>

definition appendBand :: "'a::linordered_idom \<Rightarrow> 'a \<Rightarrow> 'a span list \<Rightarrow> 'a scan \<Rightarrow> 'a scan" where
  "appendBand ytop ybottom spans st =
     (let rs = fst st @ map (band_rect ytop ybottom) spans
      in coalesceBands rs (snd st) \<lparr>b_start = length (fst st), b_end = length rs\<rparr>)"

text \<open>
  Modelled from the spec: \<^verbatim>\<open>Region::sliceBand(rects, top, bottom, previousBand)\<close>, the
  solitary-side rule "copy": the band of one operand, cut to \<open>[top, bottom)\<close>.
\<close>

definition sliceBand :: "'a::linordered_idom Rect list \<Rightarrow> 'a \<Rightarrow> 'a \<Rightarrow> 'a scan \<Rightarrow> 'a scan" where
  "sliceBand band ytop ybottom st = appendBand ytop ybottom (footprint band) st"

subsection \<open>The band functions\<close>

text \<open>
  Modelled from the spec: \<^verbatim>\<open>Region::mergeBands\<close> (4.3, union). "Walk both slices by
  left. Accumulate a running interval \<open>[a, b)\<close>: whenever the next input rectangle's
  \<open>left \<le> b\<close>, extend \<open>b := max(b, right)\<close>; otherwise emit \<open>(a, b, top, bottom)\<close> and
  restart. Emit the tail." The accumulator is (emitted so far, \<open>a\<close>, \<open>b\<close>); \<open>absorb\<close>
  takes the next input rectangle.
\<close>

definition absorb :: "'a::linordered_idom span list \<times> 'a \<times> 'a \<Rightarrow> 'a Rect \<Rightarrow> 'a span list \<times> 'a \<times> 'a" where
  "absorb acc n =
     (case acc of (out, a, b) \<Rightarrow>
        if r_left n \<le> b then (out, a, max b (r_right n))
        else (out @ [(a, b)], r_left n, r_right n))"

fun mergeWalk ::
  "'a::linordered_idom span list \<times> 'a \<times> 'a \<Rightarrow> 'a Rect list \<Rightarrow> 'a Rect list \<Rightarrow> 'a span list" where
  "mergeWalk acc [] [] = (case acc of (out, a, b) \<Rightarrow> out @ [(a, b)])"
| "mergeWalk acc (l # ls) [] = mergeWalk (absorb acc l) ls []"
| "mergeWalk acc [] (r # rs) = mergeWalk (absorb acc r) [] rs"
| "mergeWalk acc (l # ls) (r # rs) =
     (if r_left l \<le> r_left r then mergeWalk (absorb acc l) ls (r # rs)
      else mergeWalk (absorb acc r) (l # ls) rs)"

fun mergeSpans :: "'a::linordered_idom Rect list \<Rightarrow> 'a Rect list \<Rightarrow> 'a span list" where
  "mergeSpans [] [] = []"
| "mergeSpans (l # ls) [] = mergeWalk ([], r_left l, r_right l) ls []"
| "mergeSpans [] (r # rs) = mergeWalk ([], r_left r, r_right r) [] rs"
| "mergeSpans (l # ls) (r # rs) =
     (if r_left l \<le> r_left r then mergeWalk ([], r_left l, r_right l) ls (r # rs)
      else mergeWalk ([], r_left r, r_right r) (l # ls) rs)"

definition mergeBands ::
  "'a::linordered_idom Rect list \<Rightarrow> 'a Rect list \<Rightarrow> 'a \<Rightarrow> 'a \<Rightarrow> 'a scan \<Rightarrow> 'a scan" where
  "mergeBands left right ytop ybottom st = appendBand ytop ybottom (mergeSpans left right) st"

text \<open>
  Modelled from the spec: \<^verbatim>\<open>Region::subtractBands\<close> (4.3, L minus R). "Walk both slices;
  maintain cursor starting at the first L rectangle's left. For each L rectangle
  \<open>[a, b)\<close>: emit the parts of \<open>[a, b)\<close> not covered by any R rectangle." The cursor is
  the start of the part of the current L rectangle that is still to be decided.
\<close>

fun subtractWalk :: "'a::linordered_idom \<Rightarrow> 'a Rect list \<Rightarrow> 'a Rect list \<Rightarrow> 'a span list" where
  "subtractWalk cursor [] rs = []"
| "subtractWalk cursor [l] [] = [(cursor, r_right l)]"
| "subtractWalk cursor (l # l' # ls) [] = (cursor, r_right l) # subtractWalk (r_left l') (l' # ls) []"
| "subtractWalk cursor [l] (r # rs) =
     (if r_right r \<le> cursor then subtractWalk cursor [l] rs
      else if r_right l \<le> r_left r then [(cursor, r_right l)]
      else (if cursor < r_left r then [(cursor, r_left r)] else []) @
           (if r_right r < r_right l then subtractWalk (r_right r) [l] rs else []))"
| "subtractWalk cursor (l # l' # ls) (r # rs) =
     (if r_right r \<le> cursor then subtractWalk cursor (l # l' # ls) rs
      else if r_right l \<le> r_left r then (cursor, r_right l) # subtractWalk (r_left l') (l' # ls) (r # rs)
      else (if cursor < r_left r then [(cursor, r_left r)] else []) @
           (if r_right r < r_right l then subtractWalk (r_right r) (l # l' # ls) rs
            else subtractWalk (r_left l') (l' # ls) (r # rs)))"

definition subtractSpans :: "'a::linordered_idom Rect list \<Rightarrow> 'a Rect list \<Rightarrow> 'a span list" where
  "subtractSpans left right = (case left of [] \<Rightarrow> [] | l # _ \<Rightarrow> subtractWalk (r_left l) left right)"

definition subtractBands ::
  "'a::linordered_idom Rect list \<Rightarrow> 'a Rect list \<Rightarrow> 'a \<Rightarrow> 'a \<Rightarrow> 'a scan \<Rightarrow> 'a scan" where
  "subtractBands left right ytop ybottom st = appendBand ytop ybottom (subtractSpans left right) st"

text \<open>
  Modelled from the spec: \<^verbatim>\<open>Region::intersectBands\<close> (4.3). "Walk both slices; for each
  pair whose intervals overlap, emit \<open>[max(l1, l2), min(r1, r2))\<close>." The rectangle that
  ends first is left behind.
\<close>

fun intersectSpans :: "'a::linordered_idom Rect list \<Rightarrow> 'a Rect list \<Rightarrow> 'a span list" where
  "intersectSpans [] right = []"
| "intersectSpans left [] = []"
| "intersectSpans (l # ls) (r # rs) =
     (let a = max (r_left l) (r_left r); b = min (r_right l) (r_right r)
      in (if a < b then [(a, b)] else []) @
         (if r_right l < r_right r then intersectSpans ls (r # rs)
          else if r_right r < r_right l then intersectSpans (l # ls) rs
          else intersectSpans ls rs))"

definition intersectBands ::
  "'a::linordered_idom Rect list \<Rightarrow> 'a Rect list \<Rightarrow> 'a \<Rightarrow> 'a \<Rightarrow> 'a scan \<Rightarrow> 'a scan" where
  "intersectBands left right ytop ybottom st = appendBand ytop ybottom (intersectSpans left right) st"

text \<open>
  Modelled from the spec: \<^verbatim>\<open>Region::xorBands\<close> (4.3). "Computed directly as a sweep that
  toggles emission at every endpoint, emitting intervals where exactly one of L, R
  covers." The endpoints of a slice are its lefts and rights in order; the sweep visits
  the endpoints of both slices in order, an endpoint of both toggles twice and so not
  at all, and the output intervals run from one remaining endpoint to the next.
\<close>

fun endpoints :: "'a Rect list \<Rightarrow> 'a list" where
  "endpoints [] = []"
| "endpoints (r # rs) = r_left r # r_right r # endpoints rs"

fun toggle :: "'a::linordered_idom list \<Rightarrow> 'a list \<Rightarrow> 'a list" where
  "toggle [] ys = ys"
| "toggle xs [] = xs"
| "toggle (x # xs) (y # ys) =
     (if x < y then x # toggle xs (y # ys)
      else if y < x then y # toggle (x # xs) ys
      else toggle xs ys)"

fun pairUp :: "'a list \<Rightarrow> 'a span list" where
  "pairUp (a # b # xs) = (a, b) # pairUp xs"
| "pairUp _ = []"

definition xorSpans :: "'a::linordered_idom Rect list \<Rightarrow> 'a Rect list \<Rightarrow> 'a span list" where
  "xorSpans left right = pairUp (toggle (endpoints left) (endpoints right))"

definition xorBands ::
  "'a::linordered_idom Rect list \<Rightarrow> 'a Rect list \<Rightarrow> 'a \<Rightarrow> 'a \<Rightarrow> 'a scan \<Rightarrow> 'a scan" where
  "xorBands left right ytop ybottom st = appendBand ytop ybottom (xorSpans left right) st"

subsection \<open>The band-scan driver\<close>

text \<open>
  The measure of the driver's loop: the rectangles still to be read, twice, plus one
  when the two operands do not start at the same line (the next step then brings them
  level or drops a band).
\<close>

definition scanPhase :: "'a::linordered_idom \<Rightarrow> 'a Rect list \<Rightarrow> 'a Rect list \<Rightarrow> nat" where
  "scanPhase y L R =
     (case L of [] \<Rightarrow> 0 | l # _ \<Rightarrow>
        (case R of [] \<Rightarrow> 0 | r # _ \<Rightarrow> if max y (r_top l) = max y (r_top r) then 0 else 1))"

definition scanMeasure :: "'a::linordered_idom \<Rightarrow> 'a Rect list \<Rightarrow> 'a Rect list \<Rightarrow> nat" where
  "scanMeasure y L R = 2 * (length L + length R) + scanPhase y L R"

text \<open>
  Modelled from the spec: the band-scan driver (4.2) that \<^verbatim>\<open>unite\<close>, \<^verbatim>\<open>subtract\<close>,
  \<^verbatim>\<open>exclusiveOr\<close> and \<^verbatim>\<open>intersect\<close> share. It "walks two canonical rectangle sequences
  L, R as streams of bands" and maintains the positions in \<open>L\<close> and \<open>R\<close> (here: what is
  left of each list), \<open>yCursor\<close> and the last band appended. The part of the front band
  of \<open>L\<close> that is still to be processed starts at \<open>topL = max(yCursor, top)\<close>, likewise
  \<open>topR\<close>, so the current band starts at \<open>max(yCursor, min(topL, topR))\<close>.
  \<^item> Both sides cover it (\<open>topL = topR\<close>): it ends at \<open>min(bottomL, bottomR)\<close>; "call the
    per-operation band merger on the two slices; append result; advance
    \<open>yCursor := bottom\<close>; advance past bands whose bottom equals bottom".
  \<^item> Only one side covers it: it ends at that band's bottom or where the other side
    begins, whichever comes first; the solitary-side rule of the operation applies
    (\<open>keepL\<close>, \<open>keepR\<close>: copy or emit nothing).
  \<^item> A gap between bands is skipped by the maximum with the band's top.
  Past the end of one list its top is \<open>+\<infinity>\<close>: only the other side is left.
\<close>

function bandScan ::
  "('a::linordered_idom Rect list \<Rightarrow> 'a Rect list \<Rightarrow> 'a \<Rightarrow> 'a \<Rightarrow> 'a scan \<Rightarrow> 'a scan) \<Rightarrow> bool \<Rightarrow> bool \<Rightarrow>
   'a \<Rightarrow> 'a Rect list \<Rightarrow> 'a Rect list \<Rightarrow> 'a scan \<Rightarrow> 'a scan" where
  "bandScan bandOp keepL keepR yCursor [] [] st = st"
| "bandScan bandOp keepL keepR yCursor (l # ls) [] st =
     (let ytop = max yCursor (r_top l); ybottom = r_bottom l
      in bandScan bandOp keepL keepR ybottom (afterBand (l # ls)) []
           (if keepL then sliceBand (bandOf (l # ls)) ytop ybottom st else st))"
| "bandScan bandOp keepL keepR yCursor [] (r # rs) st =
     (let ytop = max yCursor (r_top r); ybottom = r_bottom r
      in bandScan bandOp keepL keepR ybottom [] (afterBand (r # rs))
           (if keepR then sliceBand (bandOf (r # rs)) ytop ybottom st else st))"
| "bandScan bandOp keepL keepR yCursor (l # ls) (r # rs) st =
     (let topL = max yCursor (r_top l); topR = max yCursor (r_top r)
      in if topL < topR then
           (let ybottom = min (r_bottom l) topR
            in bandScan bandOp keepL keepR ybottom
                 (if r_bottom l = ybottom then afterBand (l # ls) else l # ls) (r # rs)
                 (if keepL then sliceBand (bandOf (l # ls)) topL ybottom st else st))
         else if topR < topL then
           (let ybottom = min (r_bottom r) topL
            in bandScan bandOp keepL keepR ybottom
                 (l # ls) (if r_bottom r = ybottom then afterBand (r # rs) else r # rs)
                 (if keepR then sliceBand (bandOf (r # rs)) topR ybottom st else st))
         else
           (let ybottom = min (r_bottom l) (r_bottom r)
            in bandScan bandOp keepL keepR ybottom
                 (if r_bottom l = ybottom then afterBand (l # ls) else l # ls)
                 (if r_bottom r = ybottom then afterBand (r # rs) else r # rs)
                 (bandOp (bandOf (l # ls)) (bandOf (r # rs)) topL ybottom st)))"
  by pat_completeness auto
termination
proof (relation "measure (\<lambda>(bandOp, keepL, keepR, y, L, R, st). scanMeasure y L R)", goal_cases)
  case 1
  show ?case by simp
next
  case (2 bandOp keepL keepR yCursor l ls st x xa)
  have "length (afterBand (l # ls)) \<le> length ls"
    by (simp add: afterBand_def length_dropWhile_le)
  moreover have "scanPhase xa (afterBand (l # ls)) [] \<le> 1"
    by (simp add: scanPhase_def split: list.splits)
  ultimately show ?case by (simp add: scanMeasure_def)
next
  case (3 bandOp keepL keepR yCursor r rs st x xa)
  have "length (afterBand (r # rs)) \<le> length rs"
    by (simp add: afterBand_def length_dropWhile_le)
  moreover have "scanPhase xa [] (afterBand (r # rs)) \<le> 1"
    by (simp add: scanPhase_def split: list.splits)
  ultimately show ?case by (simp add: scanMeasure_def)
next
  case (4 bandOp keepL keepR yCursor l ls r rs st x xa xb)
  show ?case
  proof (cases "r_bottom l = xb")
    case True
    have "length (afterBand (l # ls)) \<le> length ls"
      by (simp add: afterBand_def length_dropWhile_le)
    moreover have "scanPhase xb (afterBand (l # ls)) (r # rs) \<le> 1"
      by (simp add: scanPhase_def split: list.splits)
    ultimately show ?thesis using True by (simp add: scanMeasure_def)
  next
    case False
    with 4 have "xa < r_bottom l" "xb = xa" by (auto simp: min_def split: if_splits)
    moreover from 4 have "r_top l < xa" "r_top r \<le> xa" by (auto simp: max_def split: if_splits)
    ultimately show ?thesis
      using 4 False by (simp add: scanMeasure_def scanPhase_def max_def)
  qed
next
  case (5 bandOp keepL keepR yCursor l ls r rs st x xa xb)
  show ?case
  proof (cases "r_bottom r = xb")
    case True
    have "length (afterBand (r # rs)) \<le> length rs"
      by (simp add: afterBand_def length_dropWhile_le)
    moreover have "scanPhase xb (l # ls) (afterBand (r # rs)) \<le> 1"
      by (simp add: scanPhase_def split: list.splits)
    ultimately show ?thesis using True by (simp add: scanMeasure_def)
  next
    case False
    with 5 have "x < r_bottom r" "xb = x" by (auto simp: min_def split: if_splits)
    moreover from 5 have "r_top r < x" "r_top l \<le> x" by (auto simp: max_def split: if_splits)
    ultimately show ?thesis
      using 5 False by (simp add: scanMeasure_def scanPhase_def max_def)
  qed
next
  case (6 bandOp keepL keepR yCursor l ls r rs st x xa xb)
  let ?L = "if r_bottom l = xb then afterBand (l # ls) else l # ls"
  let ?R = "if r_bottom r = xb then afterBand (r # rs) else r # rs"
  have al: "length (afterBand (l # ls)) \<le> length ls" and ar: "length (afterBand (r # rs)) \<le> length rs"
    by (simp_all add: afterBand_def length_dropWhile_le)
  have ph: "scanPhase xb ?L ?R \<le> 1"
    by (simp add: scanPhase_def split: list.splits)
  from 6 have "r_bottom l = xb \<or> r_bottom r = xb" by (auto simp: min_def split: if_splits)
  then have len: "length ?L + length ?R < length (l # ls) + length (r # rs)"
    using al ar by auto
  have gen: "2 * a + p < 2 * b + q" if "p \<le> 1" "a < b" for a b p q :: nat
    using that by linarith
  have "scanMeasure xb ?L ?R < scanMeasure yCursor (l # ls) (r # rs)"
    unfolding scanMeasure_def by (rule gen [OF ph len])
  then show ?case by simp
qed

subsection \<open>The set operations\<close>

text \<open>
  Modelled from the spec: where the scan starts. The cursor starts at the first band
  of the two operands, so that it changes no top.
\<close>

definition scanStart :: "'a::linordered_idom Rect list \<Rightarrow> 'a Rect list \<Rightarrow> 'a" where
  "scanStart left right =
     (case left of
        [] \<Rightarrow> (case right of [] \<Rightarrow> 0 | r # _ \<Rightarrow> r_top r)
      | l # _ \<Rightarrow> (case right of [] \<Rightarrow> r_top l | r # _ \<Rightarrow> min (r_top l) (r_top r)))"

definition runScan ::
  "('a::linordered_idom Rect list \<Rightarrow> 'a Rect list \<Rightarrow> 'a \<Rightarrow> 'a \<Rightarrow> 'a scan \<Rightarrow> 'a scan) \<Rightarrow> bool \<Rightarrow> bool \<Rightarrow>
   'a Rect list \<Rightarrow> 'a Rect list \<Rightarrow> 'a Rect list" where
  "runScan bandOp keepL keepR left right =
     fst (bandScan bandOp keepL keepR (scanStart left right) left right
            ([], \<lparr>b_start = 0, b_end = 0\<rparr>))"

text \<open>
  Modelled from the spec: \<^verbatim>\<open>Region::unite\<close>, \<^verbatim>\<open>subtract\<close>, \<^verbatim>\<open>exclusiveOr\<close> and
  \<^verbatim>\<open>intersect\<close> (private, on two spans of rectangles): the driver with the band function
  of the operation and its solitary-side rules (4.3): unite copies \<open>L\<close> and copies \<open>R\<close>,
  subtract copies \<open>L\<close> and emits nothing for \<open>R\<close>, xor copies both, intersect emits
  nothing for either.
\<close>

definition unite :: "'a::linordered_idom Rect list \<Rightarrow> 'a Rect list \<Rightarrow> 'a Rect list" where
  "unite left right = runScan mergeBands True True left right"

definition subtract :: "'a::linordered_idom Rect list \<Rightarrow> 'a Rect list \<Rightarrow> 'a Rect list" where
  "subtract left right = runScan subtractBands True False left right"

definition exclusiveOr :: "'a::linordered_idom Rect list \<Rightarrow> 'a Rect list \<Rightarrow> 'a Rect list" where
  "exclusiveOr left right = runScan xorBands True True left right"

definition intersect :: "'a::linordered_idom Rect list \<Rightarrow> 'a Rect list \<Rightarrow> 'a Rect list" where
  "intersect left right = runScan intersectBands False False left right"

text \<open>
  Modelled from the spec: the region overloads \<^verbatim>\<open>Region::united(const Region &)\<close>,
  \<^verbatim>\<open>subtracted\<close>, \<^verbatim>\<open>xored\<close> and \<^verbatim>\<open>intersected\<close>: "Binary operations take two
  canonical regions, walk them as two streams of horizontal bands, and emit a third
  canonical region", stored as \<^verbatim>\<open>assignSortedRects\<close> stores a sorted list.
\<close>

definition united :: "'a::linordered_idom Region \<Rightarrow> 'a Region \<Rightarrow> 'a Region" where
  "united this other =
     assignSortedRects (unite (rects this) (rects other))"

definition subtracted :: "'a::linordered_idom Region \<Rightarrow> 'a Region \<Rightarrow> 'a Region" where
  "subtracted this other =
     assignSortedRects (subtract (rects this) (rects other))"

definition xored :: "'a::linordered_idom Region \<Rightarrow> 'a Region \<Rightarrow> 'a Region" where
  "xored this other =
     assignSortedRects (exclusiveOr (rects this) (rects other))"

definition intersected :: "'a::linordered_idom Region \<Rightarrow> 'a Region \<Rightarrow> 'a Region" where
  "intersected this other =
     assignSortedRects (intersect (rects this) (rects other))"

section \<open>Properties of the header's members\<close>

lemma rect_eq_iff: "rect_eq a b \<longleftrightarrow> a = b"
  by (cases a, cases b) (auto simp: rect_eq_def)

lemma qlist_eq_iff: "qlist_eq xs ys \<longleftrightarrow> xs = ys"
  by (induction xs ys rule: qlist_eq.induct) (simp_all add: rect_eq_iff)

lemma region_eq_iff: "region_eq a b \<longleftrightarrow> m_bounds a = m_bounds b \<and> m_rects a = m_rects b"
  by (simp add: region_eq_def rect_eq_iff qlist_eq_iff)

lemma region_eq_refl: "region_eq a a"
  by (simp add: region_eq_iff)


subsection \<open>Equality of regions\<close>

text \<open>
  C1, as stated: \<open>A == B\<close> holds iff the rectangle lists of \<open>A\<close> and \<open>B\<close> are
  equal element-wise. This fails for empty regions: \<^verbatim>\<open>operator==\<close> also compares the
  bounds, and the constructors keep the rectangle they are given as the bounds, empty
  or not. \<^verbatim>\<open>Region(5, 5, 0, 0)\<close> and \<^verbatim>\<open>Region()\<close> both have no rectangles and empty
  bounds (both describe the empty point set), yet they do not compare equal.
\<close>

theorem region_eq_lists_counterexample:
  "m_rects (Region_xywh 5 5 0 0 :: RegionI) = m_rects (Region_empty :: RegionI)
   \<and> rects (Region_xywh 5 5 0 0 :: RegionI) = rects (Region_empty :: RegionI)
   \<and> rect_isEmpty (m_bounds (Region_xywh 5 5 0 0 :: RegionI))
   \<and> rect_isEmpty (m_bounds (Region_empty :: RegionI))
   \<and> \<not> region_eq (Region_xywh 5 5 0 0 :: RegionI) Region_empty"
  by (simp add: Region_xywh_def Region_empty_def Rect_xywh_def Rect_default_def
      rect_isEmpty_def region_eq_def rect_eq_def rects_def)

text \<open>
  C1, amended: for all regions \<open>A\<close> and \<open>B\<close>, \<open>A == B\<close> implies that their \<open>rects()\<close>
  are equal element-wise; and for all regions \<open>A\<close> and \<open>B\<close> in the representation the
  library gives a region (\<open>wellStored\<close>: in particular, bounds that are the default
  rectangle when the region has no rectangles), \<open>A == B\<close> holds iff their \<open>rects()\<close> are
  equal element-wise. The lemmas \<open>wellStored_Region_empty\<close>, \<open>wellStored_Region_rect\<close>,
  \<open>wellStored_fromSortedRects\<close> and \<open>wellStored_operations\<close> below show which regions
  these are: \<^verbatim>\<open>Region()\<close>, the region of a non-empty rectangle, the sorted constructor
  and the four set operations on canonical operands. What is left out is a region
  built from an empty rectangle other than the default one.
\<close>

theorem region_eq_iff_rects:
  "(region_eq A B \<longrightarrow> rects A = rects B)
   \<and> (wellStored A \<and> wellStored B \<longrightarrow> (region_eq A B \<longleftrightarrow> rects A = rects B))"
proof -
  have "A = B" if "wellStored A" "wellStored B" "rects A = rects B"
    using that
    by (cases A; cases B) (auto simp: wellStored_def rects_def split: list.splits if_splits)
  then show ?thesis
    by (auto simp: region_eq_iff rects_def)
qed

theorem region_eq_iff_rects_witness:
  "wellStored (united (Region_xywh 0 0 10 10 :: RegionI) (Region_xywh 10 0 10 10))
   \<and> wellStored (Region_xywh 0 0 20 10 :: RegionI)
   \<and> rects (united (Region_xywh 0 0 10 10 :: RegionI) (Region_xywh 10 0 10 10))
       = rects (Region_xywh 0 0 20 10 :: RegionI)
   \<and> region_eq (united (Region_xywh 0 0 10 10 :: RegionI) (Region_xywh 10 0 10 10))
       (Region_xywh 0 0 20 10)
   \<and> wellStored (Region_xywh 0 0 10 10 :: RegionI)
   \<and> rects (Region_xywh 0 0 10 10 :: RegionI) \<noteq> rects (Region_xywh 0 0 20 10 :: RegionI)
   \<and> \<not> region_eq (Region_xywh 0 0 10 10 :: RegionI) (Region_xywh 0 0 20 10)"
proof -
  let ?A = "united (Region_xywh 0 0 10 10 :: RegionI) (Region_xywh 10 0 10 10)"
  let ?B = "Region_xywh 0 0 20 10 :: RegionI"
  let ?C = "Region_xywh 0 0 10 10 :: RegionI"
  have a: "wellStored ?A" by code_simp
  have b: "wellStored ?B" by code_simp
  have c: "wellStored ?C" by code_simp
  have ab: "rects ?A = rects ?B" by code_simp
  have cb: "rects ?C \<noteq> rects ?B" by code_simp
  from region_eq_iff_rects [of ?A ?B] region_eq_iff_rects [of ?C ?B] a b c ab cb
  show ?thesis by blast
qed

subsection \<open>The bounds of a region\<close>









subsection \<open>The infinite regions\<close>

lemma sint_INT_MIN_half: "sint (int_div INT_MIN 2) = - 1073741824"
  by (simp add: int_div_def INT_MIN_def signed_divide_int_def)

lemma sint_INT_MAX: "sint INT_MAX = 2147483647"
  by (simp add: INT_MAX_def)

lemma sint_INT_MIN: "sint INT_MIN = - 2147483648"
  by (simp add: INT_MIN_def)

text \<open>
  C3: \<^verbatim>\<open>Region::infinite()\<close> is the region of the single rectangle
  \<open>(INT_MIN/2, INT_MIN/2, INT_MAX, INT_MAX)\<close>, given as \<open>(x, y, width, height)\<close>: its
  left and top are \<open>INT_MIN/2 = -1073741824\<close>, its width and height are
  \<open>INT_MAX = 2147483647\<close>.
\<close>

theorem Region_infinite_rect:
  "Region_infinite = Region_rect (Rect_xywh (- 1073741824) (- 1073741824) 2147483647 2147483647)
   \<and> r_left (m_bounds Region_infinite) = sint (int_div INT_MIN 2)
   \<and> r_top (m_bounds Region_infinite) = sint (int_div INT_MIN 2)
   \<and> r_width (m_bounds Region_infinite) = sint INT_MAX
   \<and> r_height (m_bounds Region_infinite) = sint INT_MAX
   \<and> sint (int_div INT_MIN 2) = - (2 ^ 30)
   \<and> sint INT_MAX = 2 ^ 31 - 1
   \<and> sint INT_MIN = - (2 ^ 31)"
  by (simp add: Region_infinite_def Region_xywh_def Region_rect_def Rect_xywh_def
      r_width_def r_height_def sint_INT_MIN_half sint_INT_MAX sint_INT_MIN)

text \<open>
  C4: the claim wants the top-left corner of \<^verbatim>\<open>RegionF::infinite()\<close> at a large
  negative coordinate. The code passes \<^verbatim>\<open>std::numeric_limits<qreal>::min() / 2\<close>,
  and \<^verbatim>\<open>min()\<close> of a floating-point type is the smallest positive normal number:
  the corner lies at \<open>(2\<^sup>-\<^sup>1\<^sup>0\<^sup>2\<^sup>3, 2\<^sup>-\<^sup>1\<^sup>0\<^sup>2\<^sup>3)\<close>, strictly right of and below the
  origin, and no point with a negative coordinate is inside the rectangle.
\<close>

theorem RegionF_infinite_corner_positive:
  "r_left (m_bounds RegionF_infinite) = 1 / 2 ^ 1023
   \<and> r_top (m_bounds RegionF_infinite) = 1 / 2 ^ 1023
   \<and> 0 < r_left (m_bounds RegionF_infinite)
   \<and> 0 < r_top (m_bounds RegionF_infinite)"
  by (simp add: RegionF_infinite_def Region_xywh_def Rect_xywh_def qreal_min_def)

subsection \<open>Moving a region\<close>

text \<open>
  C5: move-constructing from \<open>r\<close> gives a region with the list and bounds \<open>r\<close> had
  and leaves \<open>r\<close> with the empty list and the default (empty) bounds; move-assigning
  \<open>other\<close> into a distinct \<open>this\<close> does the same to the two objects in the store.
\<close>

theorem move_leaves_source_empty:
  "fst (Region_move r) = r
   \<and> snd (Region_move r) = Region_empty
   \<and> (this \<noteq> other \<longrightarrow>
        move_assign s this other this = s other
        \<and> move_assign s this other other = Region_empty
        \<and> m_rects (move_assign s this other other) = []
        \<and> m_bounds (move_assign s this other other) = Rect_default)"
  by (simp add: Region_move_def move_assign_def exchange_def Region_empty_def)

theorem move_leaves_source_empty_witness:
  "fst (Region_move (Region_xywh 1 2 3 4 :: RegionI)) = Region_xywh 1 2 3 4
   \<and> snd (Region_move (Region_xywh 1 2 3 4 :: RegionI)) = Region_empty
   \<and> move_assign ((\<lambda>_. Region_empty)(1 := Region_xywh 1 2 3 4 :: RegionI)) 0 1 0 = Region_xywh 1 2 3 4
   \<and> move_assign ((\<lambda>_. Region_empty)(1 := Region_xywh 1 2 3 4 :: RegionI)) 0 1 1 = Region_empty"
  using move_leaves_source_empty [of "Region_xywh 1 2 3 4 :: RegionI" 0 1
      "(\<lambda>_. Region_empty)(1 := Region_xywh 1 2 3 4 :: RegionI)"]
  by simp

text \<open>
  C10: move-assigning a region to itself keeps its list and its bounds, for \<^verbatim>\<open>Region\<close>
  and for \<^verbatim>\<open>RegionF\<close>: \<^verbatim>\<open>std::exchange\<close> hands back the old value of each member
  after clearing it, and the assignment stores it again. No other object changes.
\<close>

theorem self_move_assign_keeps_value:
  "move_assign s r r = s
   \<and> m_rects (move_assign s r r r) = m_rects (s r)
   \<and> m_bounds (move_assign s r r r) = m_bounds (s r)
   \<and> move_assign (sI :: int store) r r r = sI r
   \<and> move_assign (sF :: real store) r r r = sF r"
  by (simp add: move_assign_def exchange_def)

subsection \<open>The rectangle overloads\<close>

text \<open>
  C6: for every region \<open>r\<close> and rectangle \<open>t\<close>, \<open>r.united(t) == r.united(Region(t))\<close>,
  and likewise for \<open>subtracted\<close>, \<open>xored\<close> and \<open>intersected\<close>: for the region
  overloads as modelled, and for any function \<open>f\<close> in their place.
\<close>

theorem rect_overloads_agree:
  "region_eq (united_rect united r t) (united r (Region_rect t))
   \<and> region_eq (subtracted_rect subtracted r t) (subtracted r (Region_rect t))
   \<and> region_eq (xored_rect xored r t) (xored r (Region_rect t))
   \<and> region_eq (intersected_rect intersected r t) (intersected r (Region_rect t))
   \<and> region_eq (united_rect f r t) (f r (Region_rect t))
   \<and> region_eq (subtracted_rect f r t) (f r (Region_rect t))
   \<and> region_eq (xored_rect f r t) (f r (Region_rect t))
   \<and> region_eq (intersected_rect f r t) (f r (Region_rect t))"
  by (simp add: united_rect_def subtracted_rect_def xored_rect_def intersected_rect_def
      region_eq_refl)

section \<open>Properties of the modelled operations\<close>

subsection \<open>Subtracting a hole\<close>

text \<open>
  C9: \<^verbatim>\<open>Region(0, 0, 30, 30).subtracted(Rect(10, 10, 10, 10))\<close> has the rectangle list
  \<open>[(0,0,30,10), (0,10,10,10), (20,10,10,10), (0,20,30,10)]\<close>, in three bands: the
  first rectangle, then the two in the middle, then the last.
\<close>

theorem subtracted_hole:
  "rects (subtracted_rect subtracted (Region_xywh 0 0 30 30 :: RegionI) (Rect_xywh 10 10 10 10))
     = [Rect_xywh 0 0 30 10, Rect_xywh 0 10 10 10, Rect_xywh 20 10 10 10, Rect_xywh 0 20 30 10]
   \<and> m_rects (subtracted_rect subtracted (Region_xywh 0 0 30 30 :: RegionI) (Rect_xywh 10 10 10 10))
     = [Rect_xywh 0 0 30 10, Rect_xywh 0 10 10 10, Rect_xywh 20 10 10 10, Rect_xywh 0 20 30 10]
   \<and> bands (rects (subtracted_rect subtracted (Region_xywh 0 0 30 30 :: RegionI) (Rect_xywh 10 10 10 10)))
     = [[Rect_xywh 0 0 30 10], [Rect_xywh 0 10 10 10, Rect_xywh 20 10 10 10], [Rect_xywh 0 20 30 10]]"
  by code_simp

subsection \<open>The scenarios of the spec\<close>

text \<open>
  The model reproduces the scenarios S1 to S3 and S5 of the spec: two disjoint
  rectangles of one band stay two, two touching ones merge, two stacked ones coalesce,
  overlapping rectangles intersect in their overlap and disjoint ones in nothing.
\<close>

lemma scenario_unite_disjoint:
  "rects (united (Region_xywh 0 0 10 10 :: RegionI) (Region_xywh 20 0 10 10))
     = [Rect_xywh 0 0 10 10, Rect_xywh 20 0 10 10]"
  by code_simp

lemma scenario_unite_touching:
  "rects (united (Region_xywh 0 0 10 10 :: RegionI) (Region_xywh 10 0 10 10)) = [Rect_xywh 0 0 20 10]"
  by code_simp

lemma scenario_unite_stacked:
  "rects (united (Region_xywh 0 0 10 10 :: RegionI) (Region_xywh 0 10 10 10)) = [Rect_xywh 0 0 10 20]"
  by code_simp

lemma scenario_intersect:
  "rects (intersected (Region_xywh 0 0 20 20 :: RegionI) (Region_xywh 10 10 20 20)) = [Rect_xywh 10 10 10 10]
   \<and> rects (intersected (Region_xywh 0 0 20 20 :: RegionI) (Region_xywh 30 30 20 20)) = []"
  by code_simp

subsection \<open>Bands of a banded list\<close>

lemma banded_tl: "banded (a # rs) \<Longrightarrow> banded rs"
  by (cases rs) simp_all

lemma banded_dropWhile: "banded rs \<Longrightarrow> banded (dropWhile P rs)"
  by (induction rs) (auto dest: banded_tl)

lemma banded_afterBand: "banded rs \<Longrightarrow> banded (afterBand rs)"
  using banded_dropWhile [of rs "\<lambda>q. r_top q = r_top (hd rs)"]
  by (cases rs) (simp_all add: afterBand_def)

lemma okband_takeWhile: "banded rs \<Longrightarrow> okband (takeWhile (\<lambda>q. r_top q = t) rs)"
  by (induction rs rule: banded.induct) (auto simp: rect_isEmpty_def)

lemma okband_bandOf: "banded rs \<Longrightarrow> okband (bandOf rs)"
  using okband_takeWhile [of rs "r_top (hd rs)"]
  by (cases rs) (simp_all add: bandOf_def)

lemma okband_tl: "okband (a # rs) \<Longrightarrow> okband rs"
  by (cases rs) simp_all

lemma okband_head: "okband (a # rs) \<Longrightarrow> r_left a < r_right a"
  by (cases rs) simp_all

lemma okband_head_less: "okband (a # rs) \<Longrightarrow> x \<in> set rs \<Longrightarrow> r_right a < r_left x"
proof (induction rs arbitrary: a)
  case Nil
  then show ?case by simp
next
  case (Cons b rs)
  show ?case
  proof (cases "x = b")
    case True
    with Cons.prems show ?thesis by simp
  next
    case False
    with Cons.prems have "x \<in> set rs" "okband (b # rs)" by simp_all
    then have "r_right b < r_left x" by (rule Cons.IH [rotated])
    moreover from Cons.prems have "r_right a < r_left b" "r_left b < r_right b"
      by (cases rs; simp)+
    ultimately show ?thesis by simp
  qed
qed

lemma okband_lefts: "okband (a # rs) \<Longrightarrow> \<forall>x\<in>set rs. r_left a < r_left x"
  using okband_head_less [of a rs] okband_head [of a rs] by fastforce

subsection \<open>The band functions commute\<close>

lemma absorb_tie:
  assumes "r_left x = r_left y" "r_left x \<le> r_right x" "r_left y \<le> r_right y"
  shows "absorb (absorb acc x) y = absorb (absorb acc y) x"
  using assms by (cases acc) (auto simp: absorb_def max.assoc max.commute max.left_commute)

lemma mergeWalk_take_right:
  "\<forall>x\<in>set ls. r_left r < r_left x \<Longrightarrow> mergeWalk acc ls (r # rs) = mergeWalk (absorb acc r) ls rs"
  by (cases ls) auto

text \<open>
  When two rectangles start at the same column, the walk takes the one of the left
  slice first; taking the other first gives the same running interval.
\<close>

lemma mergeWalk_commute:
  "okband ls \<Longrightarrow> okband rs \<Longrightarrow> mergeWalk acc ls rs = mergeWalk acc rs ls"
proof (induction "length ls + length rs" arbitrary: ls rs acc rule: less_induct)
  case less
  show ?case
  proof (cases ls)
    case Nil
    show ?thesis
    proof (cases rs)
      case Nil
      with \<open>ls = []\<close> show ?thesis by simp
    next
      case (Cons r rs')
      have "mergeWalk (absorb acc r) [] rs' = mergeWalk (absorb acc r) rs' []"
        using less.prems Cons \<open>ls = []\<close> by (intro less.hyps) (auto dest: okband_tl)
      with Cons \<open>ls = []\<close> show ?thesis by simp
    qed
  next
    case (Cons l ls')
    note L = Cons
    show ?thesis
    proof (cases rs)
      case Nil
      have "mergeWalk (absorb acc l) ls' [] = mergeWalk (absorb acc l) [] ls'"
        using less.prems L Nil by (intro less.hyps) (auto dest: okband_tl)
      with L Nil show ?thesis by simp
    next
      case (Cons r rs')
      have okl: "okband ls'" and okr: "okband rs'"
        using less.prems L Cons by (auto dest: okband_tl)
      have hl: "\<forall>x\<in>set ls'. r_left l < r_left x"
        using okband_lefts [of l ls'] less.prems L by simp
      have hr: "\<forall>x\<in>set rs'. r_left r < r_left x"
        using okband_lefts [of r rs'] less.prems Cons by simp
      consider "r_left l < r_left r" | "r_left r < r_left l" | "r_left l = r_left r"
        by fastforce
      then show ?thesis
      proof cases
        case 1
        have "mergeWalk (absorb acc l) ls' (r # rs') = mergeWalk (absorb acc l) (r # rs') ls'"
          using less.prems L Cons okl by (intro less.hyps) auto
        with 1 L Cons show ?thesis by simp
      next
        case 2
        have "mergeWalk (absorb acc r) (l # ls') rs' = mergeWalk (absorb acc r) rs' (l # ls')"
          using less.prems L Cons okr by (intro less.hyps) auto
        with 2 L Cons show ?thesis by simp
      next
        case 3
        have a: "mergeWalk acc (l # ls') (r # rs') = mergeWalk (absorb (absorb acc l) r) ls' rs'"
          using 3 hl by (simp add: mergeWalk_take_right)
        have b: "mergeWalk acc (r # rs') (l # ls') = mergeWalk (absorb (absorb acc r) l) rs' ls'"
          using 3 hr by (simp add: mergeWalk_take_right)
        have c: "absorb (absorb acc l) r = absorb (absorb acc r) l"
          using 3 okband_head [of l ls'] okband_head [of r rs'] less.prems L Cons
          by (intro absorb_tie) auto
        have "mergeWalk (absorb (absorb acc r) l) ls' rs' = mergeWalk (absorb (absorb acc r) l) rs' ls'"
          using okl okr L Cons by (intro less.hyps) auto
        with a b c L Cons show ?thesis by simp
      qed
    qed
  qed
qed

lemma mergeSpans_commute:
  assumes "okband ls" "okband rs"
  shows "mergeSpans ls rs = mergeSpans rs ls"
proof (cases ls)
  case Nil
  then show ?thesis
    using assms mergeWalk_commute [of "[]" "tl rs"] by (cases rs) (auto dest: okband_tl)
next
  case (Cons l ls')
  note L = Cons
  show ?thesis
  proof (cases rs)
    case Nil
    with L show ?thesis
      using assms mergeWalk_commute [of ls' "[]"] by (auto dest: okband_tl)
  next
    case (Cons r rs')
    have okl: "okband ls'" and okr: "okband rs'"
      using assms L Cons by (auto dest: okband_tl)
    have hl: "\<forall>x\<in>set ls'. r_left l < r_left x"
      using okband_lefts [of l ls'] assms L by simp
    have hr: "\<forall>x\<in>set rs'. r_left r < r_left x"
      using okband_lefts [of r rs'] assms Cons by simp
    consider "r_left l < r_left r" | "r_left r < r_left l" | "r_left l = r_left r"
      by fastforce
    then show ?thesis
    proof cases
      case 1
      then show ?thesis
        using L Cons assms okl mergeWalk_commute [of ls' "r # rs'"] by simp
    next
      case 2
      then show ?thesis
        using L Cons assms okr mergeWalk_commute [of "l # ls'" rs'] by simp
    next
      case 3
      have "absorb ([], r_left l, r_right l) r = absorb ([], r_left r, r_right r) l"
        using 3 okband_head [of l ls'] okband_head [of r rs'] assms L Cons
        by (auto simp: absorb_def max.commute)
      then show ?thesis
        using 3 L Cons hl hr okl okr mergeWalk_commute [of ls' rs']
        by (simp add: mergeWalk_take_right)
    qed
  qed
qed

lemma intersectSpans_Nil2: "intersectSpans ls [] = []"
  by (cases ls) simp_all

lemma intersectSpans_commute: "intersectSpans ls rs = intersectSpans rs ls"
  by (induction ls rs rule: intersectSpans.induct)
     (auto simp: Let_def max.commute min.commute intersectSpans_Nil2)

lemma toggle_Nil2: "toggle xs [] = xs"
  by (cases xs) simp_all

lemma toggle_commute: "toggle xs ys = toggle ys xs"
  by (induction xs ys rule: toggle.induct) (auto simp: toggle_Nil2)

lemma xorSpans_commute: "xorSpans ls rs = xorSpans rs ls"
  by (simp add: xorSpans_def toggle_commute)

lemma mergeBands_commute: "okband l \<Longrightarrow> okband r \<Longrightarrow> mergeBands l r = mergeBands r l"
  by (intro ext) (simp add: mergeBands_def mergeSpans_commute)

lemma intersectBands_commute: "intersectBands l r = intersectBands r l"
  by (intro ext) (simp add: intersectBands_def intersectSpans_commute [of l r])

lemma xorBands_commute: "xorBands l r = xorBands r l"
  by (intro ext) (simp add: xorBands_def xorSpans_commute [of l r])

subsection \<open>The driver treats its operands alike\<close>

text \<open>Scanning \<open>L\<close> against \<open>R\<close> is scanning \<open>R\<close> against \<open>L\<close> with the band function and the
  solitary-side rules swapped.\<close>

lemma bandScan_swap:
  "bandScan f kL kR y L R st = bandScan (\<lambda>l r. f r l) kR kL y R L st"
proof (induction f kL kR y L R st rule: bandScan.induct)
  case (1 f kL kR y st)
  show ?case by simp
next
  case (2 f kL kR y l ls st)
  then show ?case by (simp add: Let_def)
next
  case (3 f kL kR y r rs st)
  then show ?case by (simp add: Let_def)
next
  case (4 f kL kR y l ls r rs st)
  let ?tl = "max y (r_top l)" and ?tr = "max y (r_top r)"
  consider "?tl < ?tr" | "?tr < ?tl" | "?tl = ?tr" by fastforce
  then show ?case
  proof cases
    case 1
    then have n: "\<not> ?tr < ?tl" using less_asym by blast
    show ?thesis
      apply (simp only: bandScan.simps(4) [of f kL kR y l ls r rs st]
          bandScan.simps(4) [of "\<lambda>l r. f r l" kR kL y r rs l ls st] Let_def)
      apply (simp only: 1 n if_True if_False)
      apply (rule "4.IH"(1) [OF refl refl 1 refl])
      done
  next
    case 2
    then have n: "\<not> ?tl < ?tr" using less_asym by blast
    show ?thesis
      apply (simp only: bandScan.simps(4) [of f kL kR y l ls r rs st]
          bandScan.simps(4) [of "\<lambda>l r. f r l" kR kL y r rs l ls st] Let_def)
      apply (simp only: 2 n if_True if_False)
      apply (rule "4.IH"(2) [OF refl refl n 2 refl])
      done
  next
    case 3
    then have n: "\<not> ?tl < ?tr" "\<not> ?tr < ?tl" using less_irrefl by metis+
    show ?thesis
      apply (simp only: bandScan.simps(4) [of f kL kR y l ls r rs st]
          bandScan.simps(4) [of "\<lambda>l r. f r l" kR kL y r rs l ls st] Let_def)
      apply (simp only: n if_False)
      apply (simp only: 3 [symmetric] min.commute [of "r_bottom r" "r_bottom l"])
      apply (rule "4.IH"(3) [OF refl refl n(1) n(2) refl])
      done
  qed
qed

text \<open>On banded operands the driver only calls the band function on bands (\<open>okband\<close>).\<close>

lemma bandScan_cong_banded:
  "\<forall>l r. okband l \<longrightarrow> okband r \<longrightarrow> f l r = g l r \<Longrightarrow> banded L \<Longrightarrow> banded R \<Longrightarrow>
   bandScan f kL kR y L R st = bandScan g kL kR y L R st"
proof (induction f kL kR y L R st rule: bandScan.induct)
  case (1 f kL kR y st)
  show ?case by simp
next
  case (2 f kL kR y l ls st)
  then show ?case by (simp add: Let_def banded_afterBand)
next
  case (3 f kL kR y r rs st)
  then show ?case by (simp add: Let_def banded_afterBand)
next
  case (4 f kL kR y l ls r rs st)
  let ?tl = "max y (r_top l)" and ?tr = "max y (r_top r)"
  note fg_all = "4.prems"(1)
  have bl: "banded (if c then afterBand (l # ls) else l # ls)" for c
    using "4.prems"(2) by (simp add: banded_afterBand)
  have br: "banded (if c then afterBand (r # rs) else r # rs)" for c
    using "4.prems"(3) by (simp add: banded_afterBand)
  have fg: "f (bandOf (l # ls)) (bandOf (r # rs)) = g (bandOf (l # ls)) (bandOf (r # rs))"
    using fg_all okband_bandOf [OF "4.prems"(2)] okband_bandOf [OF "4.prems"(3)] by blast
  consider "?tl < ?tr" | "?tr < ?tl" | "?tl = ?tr" by fastforce
  then show ?case
  proof cases
    case 1
    show ?thesis
      apply (simp only: bandScan.simps(4) [of f kL kR y l ls r rs st]
          bandScan.simps(4) [of g kL kR y l ls r rs st] Let_def)
      apply (simp only: 1 if_True)
      apply (rule "4.IH"(1) [OF refl refl 1 refl fg_all bl "4.prems"(3)])
      done
  next
    case 2
    then have n: "\<not> ?tl < ?tr" using less_asym by blast
    show ?thesis
      apply (simp only: bandScan.simps(4) [of f kL kR y l ls r rs st]
          bandScan.simps(4) [of g kL kR y l ls r rs st] Let_def)
      apply (simp only: 2 n if_True if_False)
      apply (rule "4.IH"(2) [OF refl refl n 2 refl fg_all "4.prems"(2) br])
      done
  next
    case 3
    then have n: "\<not> ?tl < ?tr" "\<not> ?tr < ?tl" using less_irrefl by metis+
    show ?thesis
      apply (simp only: bandScan.simps(4) [of f kL kR y l ls r rs st]
          bandScan.simps(4) [of g kL kR y l ls r rs st] Let_def)
      apply (simp only: n if_False fg [symmetric])
      apply (rule "4.IH"(3) [OF refl refl n(1) n(2) refl fg_all bl br])
      done
  qed
qed

lemma scanStart_commute: "scanStart L R = scanStart R L"
  by (simp add: scanStart_def min.commute split: list.splits)

lemma runScan_commute:
  assumes "\<And>l r. okband l \<Longrightarrow> okband r \<Longrightarrow> f l r = f r l" "banded L" "banded R"
  shows "runScan f k k L R = runScan f k k R L"
proof -
  have "bandScan f k k (scanStart L R) L R st = bandScan (\<lambda>l r. f r l) k k (scanStart L R) R L st" for st
    by (rule bandScan_swap)
  also have "\<dots> st = bandScan f k k (scanStart L R) R L st" for st
    using assms(1) by (intro bandScan_cong_banded assms(2,3)) simp
  finally show ?thesis
    by (simp add: runScan_def scanStart_commute [of R L])
qed

lemma unite_commute: "banded L \<Longrightarrow> banded R \<Longrightarrow> unite L R = unite R L"
  unfolding unite_def by (rule runScan_commute) (rule mergeBands_commute)

lemma intersect_commute: "banded L \<Longrightarrow> banded R \<Longrightarrow> intersect L R = intersect R L"
  unfolding intersect_def by (rule runScan_commute) (rule intersectBands_commute)

lemma exclusiveOr_commute: "banded L \<Longrightarrow> banded R \<Longrightarrow> exclusiveOr L R = exclusiveOr R L"
  unfolding exclusiveOr_def by (rule runScan_commute) (rule xorBands_commute)

subsection \<open>Commutativity\<close>

text \<open>
  C7: for all canonical regions \<open>A\<close> and \<open>B\<close> (it is enough that their rectangle lists
  are banded), \<open>A.united(B) == B.united(A)\<close>, \<open>A.intersected(B) == B.intersected(A)\<close> and
  \<open>A.xored(B) == B.xored(A)\<close>.
\<close>

theorem set_operations_commute:
  "banded (rects A) \<Longrightarrow> banded (rects B) \<Longrightarrow>
   region_eq (united A B) (united B A)
   \<and> region_eq (intersected A B) (intersected B A)
   \<and> region_eq (xored A B) (xored B A)"
  by (simp add: united_def intersected_def xored_def region_eq_iff
      unite_commute intersect_commute exclusiveOr_commute)

theorem set_operations_commute_witness:
  "banded (rects (Region_xywh 0 0 20 20 :: RegionI))
   \<and> banded (rects (Region_xywh 10 10 20 20 :: RegionI))
   \<and> region_eq (united (Region_xywh 0 0 20 20 :: RegionI) (Region_xywh 10 10 20 20))
       (united (Region_xywh 10 10 20 20) (Region_xywh 0 0 20 20))
   \<and> region_eq (intersected (Region_xywh 0 0 20 20 :: RegionI) (Region_xywh 10 10 20 20))
       (intersected (Region_xywh 10 10 20 20) (Region_xywh 0 0 20 20))
   \<and> region_eq (xored (Region_xywh 0 0 20 20 :: RegionI) (Region_xywh 10 10 20 20))
       (xored (Region_xywh 10 10 20 20) (Region_xywh 0 0 20 20))
   \<and> rects (united (Region_xywh 10 10 20 20 :: RegionI) (Region_xywh 0 0 20 20))
       = [Rect_xywh 0 0 20 10, Rect_xywh 0 10 30 10, Rect_xywh 10 20 20 10]
   \<and> rects (intersected (Region_xywh 10 10 20 20 :: RegionI) (Region_xywh 0 0 20 20))
       = [Rect_xywh 10 10 10 10]
   \<and> rects (xored (Region_xywh 10 10 20 20 :: RegionI) (Region_xywh 0 0 20 20))
       = [Rect_xywh 0 0 20 10, Rect_xywh 0 10 10 10, Rect_xywh 20 10 10 10, Rect_xywh 10 20 20 10]"
proof -
  have a: "banded (rects (Region_xywh 0 0 20 20 :: RegionI))"
    by (simp add: rects_def Region_xywh_def Rect_xywh_def rect_isEmpty_def)
  have b: "banded (rects (Region_xywh 10 10 20 20 :: RegionI))"
    by (simp add: rects_def Region_xywh_def Rect_xywh_def rect_isEmpty_def)
  have u: "rects (united (Region_xywh 10 10 20 20 :: RegionI) (Region_xywh 0 0 20 20))
       = [Rect_xywh 0 0 20 10, Rect_xywh 0 10 30 10, Rect_xywh 10 20 20 10]"
    by code_simp
  have i: "rects (intersected (Region_xywh 10 10 20 20 :: RegionI) (Region_xywh 0 0 20 20))
       = [Rect_xywh 10 10 10 10]"
    by code_simp
  have x: "rects (xored (Region_xywh 10 10 20 20 :: RegionI) (Region_xywh 0 0 20 20))
       = [Rect_xywh 0 0 20 10, Rect_xywh 0 10 10 10, Rect_xywh 20 10 10 10, Rect_xywh 10 20 20 10]"
    by code_simp
  from set_operations_commute [OF a b] a b u i x show ?thesis by blast
qed

subsection \<open>The stored form of the results\<close>

text \<open>
  The rectangles the driver emits are not empty, so the set operations, on canonical
  operands, give regions in the stored form (\<open>wellStored\<close>), as do \<^verbatim>\<open>Region()\<close>, the
  region of a non-empty rectangle and the sorted constructor on non-empty rectangles.
\<close>

lemma band_slice_subset: "set (band_slice rs b) \<subseteq> set rs"
  unfolding band_slice_def
  by (meson set_take_subset set_drop_subset subset_trans)

lemma band_slice_appended:
  "band_slice (xs @ ys) \<lparr>b_start = length xs, b_end = length (xs @ ys)\<rparr> = ys"
  by (simp add: band_slice_def)

lemma band_rect_nonempty: "ytop < ybottom \<Longrightarrow> fst s < snd s \<Longrightarrow> \<not> rect_isEmpty (band_rect ytop ybottom s)"
  by (simp add: band_rect_def rect_isEmpty_def)

lemma appendBand_nonempty:
  assumes g: "list_all (\<lambda>q. \<not> rect_isEmpty q) (fst st)"
    and tb: "ytop < ybottom"
    and sp: "list_all (\<lambda>s. fst s < snd s) spans"
  shows "list_all (\<lambda>q. \<not> rect_isEmpty q) (fst (appendBand ytop ybottom spans st))"
proof -
  let ?new = "map (band_rect ytop ybottom) spans"
  let ?rs = "fst st @ ?new"
  let ?cur = "band_slice ?rs \<lparr>b_start = length (fst st), b_end = length ?rs\<rparr>"
  let ?prev = "band_slice ?rs (snd st)"
  have cur: "?cur = ?new" by (rule band_slice_appended)
  have new: "list_all (\<lambda>q. \<not> rect_isEmpty q) ?new"
    using sp tb by (simp add: list_all_iff band_rect_nonempty)
  have rs: "list_all (\<lambda>q. \<not> rect_isEmpty q) ?rs"
    using g new by simp
  show ?thesis
  proof (cases "?prev \<noteq> [] \<and> ?cur \<noteq> [] \<and> r_bottom (hd ?prev) = r_top (hd ?cur)
      \<and> footprint ?prev = footprint ?cur")
    case False
    then show ?thesis
      using rs unfolding appendBand_def coalesceBands_def Let_def by auto
  next
    case True
    then have "hd ?prev \<in> set ?rs"
      using band_slice_subset [of ?rs "snd st"] hd_in_set [of ?prev] by blast
    then have "\<not> rect_isEmpty (hd ?prev)"
      using rs unfolding list_all_iff by blast
    then have "r_top (hd ?prev) < r_bottom (hd ?prev)"
      by (simp add: rect_isEmpty_def not_le)
    moreover have "r_top (hd ?cur) = ytop"
      using True cur by (cases spans) (simp_all add: band_rect_def)
    ultimately have T: "r_top (hd ?prev) < ybottom"
      using True tb by simp
    have a: "list_all (\<lambda>q. \<not> rect_isEmpty q) (take (b_start (snd st)) ?rs)"
      using rs set_take_subset [of "b_start (snd st)" ?rs] by (auto simp: list_all_iff)
    have b: "list_all (\<lambda>q. \<not> rect_isEmpty q) (map (\<lambda>r. r\<lparr>r_top := r_top (hd ?prev)\<rparr>) ?cur)"
      unfolding cur using sp T by (auto simp: list_all_iff band_rect_def rect_isEmpty_def not_le)
    show ?thesis
      using True a b unfolding appendBand_def coalesceBands_def Let_def by simp
  qed
qed

lemma okband_footprint: "okband band \<Longrightarrow> list_all (\<lambda>s. fst s < snd s) (footprint band)"
  by (induction band rule: okband.induct) (simp_all add: footprint_def)

lemma okband_all: "okband band \<Longrightarrow> list_all (\<lambda>r. r_left r < r_right r) band"
  by (induction band rule: okband.induct) simp_all

lemma sliceBand_nonempty:
  "list_all (\<lambda>q. \<not> rect_isEmpty q) (fst st) \<Longrightarrow> ytop < ybottom \<Longrightarrow> okband band \<Longrightarrow>
   list_all (\<lambda>q. \<not> rect_isEmpty q) (fst (sliceBand band ytop ybottom st))"
  unfolding sliceBand_def by (intro appendBand_nonempty okband_footprint)

text \<open>The band functions produce spans that are not empty.\<close>

lemma mergeWalk_spans:
  "list_all (\<lambda>s. fst s < snd s) (fst acc) \<Longrightarrow> fst (snd acc) < snd (snd acc) \<Longrightarrow>
   list_all (\<lambda>r. r_left r < r_right r) ls \<Longrightarrow> list_all (\<lambda>r. r_left r < r_right r) rs \<Longrightarrow>
   list_all (\<lambda>s. fst s < snd s) (mergeWalk acc ls rs)"
proof (induction acc ls rs rule: mergeWalk.induct)
  case (1 acc)
  then show ?case by (cases acc) auto
next
  case (2 acc l ls)
  then show ?case by (cases acc) (auto simp: absorb_def max_def)
next
  case (3 acc r rs)
  then show ?case by (cases acc) (auto simp: absorb_def max_def)
next
  case (4 acc l ls r rs)
  then show ?case by (cases acc) (auto simp: absorb_def max_def)
qed

lemma mergeSpans_spans:
  "okband ls \<Longrightarrow> okband rs \<Longrightarrow> list_all (\<lambda>s. fst s < snd s) (mergeSpans ls rs)"
  using okband_all [of ls] okband_all [of rs]
  by (cases ls; cases rs) (auto intro!: mergeWalk_spans)

lemma intersectSpans_spans: "list_all (\<lambda>s. fst s < snd s) (intersectSpans ls rs)"
  by (induction ls rs rule: intersectSpans.induct) (auto simp: Let_def)

lemma subtractWalk_spans:
  "list_all (\<lambda>r. r_left r < r_right r) ls \<Longrightarrow> (ls \<noteq> [] \<longrightarrow> cursor < r_right (hd ls)) \<Longrightarrow>
   list_all (\<lambda>s. fst s < snd s) (subtractWalk cursor ls rs)"
  by (induction cursor ls rs rule: subtractWalk.induct) auto

lemma subtractSpans_spans: "okband ls \<Longrightarrow> list_all (\<lambda>s. fst s < snd s) (subtractSpans ls rs)"
  using okband_all [of ls]
  by (cases ls) (auto simp: subtractSpans_def intro!: subtractWalk_spans)

lemma okband_endpoints: "okband band \<Longrightarrow> sorted_wrt (<) (endpoints band)"
proof (induction band rule: okband.induct)
  case 1
  show ?case by simp
next
  case (2 r)
  then show ?case by simp
next
  case (3 a b rs)
  then have s: "sorted_wrt (<) (endpoints (b # rs))" by simp
  then have "\<forall>x\<in>set (endpoints (b # rs)). r_left b \<le> x" by auto
  with 3 s show ?case by auto
qed

lemma set_toggle: "set (toggle xs ys) \<subseteq> set xs \<union> set ys"
  by (induction xs ys rule: toggle.induct) auto

lemma sorted_toggle:
  "sorted_wrt (<) xs \<Longrightarrow> sorted_wrt (<) ys \<Longrightarrow> sorted_wrt (<) (toggle xs ys)"
proof (induction xs ys rule: toggle.induct)
  case (1 ys)
  then show ?case by simp
next
  case (2 x xs)
  then show ?case by simp
next
  case (3 x xs y ys)
  then show ?case
    using set_toggle [of xs "y # ys"] set_toggle [of "x # xs" ys] by (auto 0 3)
qed

lemma pairUp_spans: "sorted_wrt (<) xs \<Longrightarrow> list_all (\<lambda>s. fst s < snd s) (pairUp xs)"
  by (induction xs rule: pairUp.induct) auto

lemma xorSpans_spans: "okband ls \<Longrightarrow> okband rs \<Longrightarrow> list_all (\<lambda>s. fst s < snd s) (xorSpans ls rs)"
  unfolding xorSpans_def by (intro pairUp_spans sorted_toggle okband_endpoints)


lemma banded_head: "banded (l # ls) \<Longrightarrow> \<not> rect_isEmpty l"
  by (cases ls) simp_all

lemma banded_head_top: "banded (l # ls) \<Longrightarrow> r_top l < r_bottom l"
  using banded_head [of l ls] by (simp add: rect_isEmpty_def not_le)

lemma banded_dropWhile_below:
  "banded (l # ls) \<Longrightarrow> dropWhile (\<lambda>q. r_top q = r_top l) ls = q # qs \<Longrightarrow> r_bottom l \<le> r_top q"
proof (induction ls arbitrary: l)
  case Nil
  then show ?case by simp
next
  case (Cons x xs)
  show ?case
  proof (cases "r_top x = r_top l")
    case True
    with Cons.prems have "r_bottom x = r_bottom l" "banded (x # xs)"
      by (auto simp: rect_isEmpty_def)
    moreover from True Cons.prems have "dropWhile (\<lambda>q. r_top q = r_top x) xs = q # qs" by simp
    ultimately show ?thesis using Cons.IH [of x] by simp
  next
    case False
    with Cons.prems show ?thesis by auto
  qed
qed

lemma afterBand_below:
  assumes "banded (l # ls)" "afterBand (l # ls) \<noteq> []"
  shows "r_bottom l < r_bottom (hd (afterBand (l # ls)))"
proof -
  obtain q qs where q: "afterBand (l # ls) = q # qs"
    using assms(2) by (cases "afterBand (l # ls)") auto
  then have d: "dropWhile (\<lambda>q. r_top q = r_top l) ls = q # qs"
    by (simp add: afterBand_def)
  have "banded (q # qs)"
    using banded_afterBand [OF assms(1)] q by simp
  then have "r_top q < r_bottom q" by (rule banded_head_top)
  moreover have "r_bottom l \<le> r_top q"
    using assms(1) d by (rule banded_dropWhile_below)
  ultimately show ?thesis using q by simp
qed

lemma bandScan_nonempty:
  "\<forall>l r t b st. okband l \<longrightarrow> okband r \<longrightarrow> t < b \<longrightarrow> list_all (\<lambda>q. \<not> rect_isEmpty q) (fst st)
      \<longrightarrow> list_all (\<lambda>q. \<not> rect_isEmpty q) (fst (f l r t b st)) \<Longrightarrow>
   banded L \<Longrightarrow> banded R \<Longrightarrow> list_all (\<lambda>q. \<not> rect_isEmpty q) (fst st) \<Longrightarrow>
   (L \<noteq> [] \<longrightarrow> y < r_bottom (hd L)) \<Longrightarrow> (R \<noteq> [] \<longrightarrow> y < r_bottom (hd R)) \<Longrightarrow>
   list_all (\<lambda>q. \<not> rect_isEmpty q) (fst (bandScan f kL kR y L R st))"
proof (induction f kL kR y L R st rule: bandScan.induct)
  case (1 f kL kR y st)
  then show ?case by simp
next
  case (2 f kL kR y l ls st)
  let ?t = "max y (r_top l)"
  have tb: "?t < r_bottom l"
    using "2.prems"(2,5) banded_head_top [of l ls] by simp
  have st': "list_all (\<lambda>q. \<not> rect_isEmpty q)
      (fst (if kL then sliceBand (bandOf (l # ls)) ?t (r_bottom l) st else st))"
    using "2.prems"(2,4) tb by (simp add: sliceBand_nonempty okband_bandOf)
  have h: "afterBand (l # ls) \<noteq> [] \<longrightarrow> r_bottom l < r_bottom (hd (afterBand (l # ls)))"
    using afterBand_below [OF "2.prems"(2)] by simp
  show ?case
    apply (simp only: bandScan.simps(2) Let_def)
    apply (rule "2.IH" [OF refl refl "2.prems"(1) banded_afterBand [OF "2.prems"(2)] "2.prems"(3) st' h])
    apply simp
    done
next
  case (3 f kL kR y r rs st)
  let ?t = "max y (r_top r)"
  have tb: "?t < r_bottom r"
    using "3.prems"(3,6) banded_head_top [of r rs] by simp
  have st': "list_all (\<lambda>q. \<not> rect_isEmpty q)
      (fst (if kR then sliceBand (bandOf (r # rs)) ?t (r_bottom r) st else st))"
    using "3.prems"(3,4) tb by (simp add: sliceBand_nonempty okband_bandOf)
  have h: "afterBand (r # rs) \<noteq> [] \<longrightarrow> r_bottom r < r_bottom (hd (afterBand (r # rs)))"
    using afterBand_below [OF "3.prems"(3)] by simp
  show ?case
    apply (simp only: bandScan.simps(3) Let_def)
    apply (rule "3.IH" [OF refl refl "3.prems"(1,2) banded_afterBand [OF "3.prems"(3)] st' _ h])
    apply simp
    done
next
  case (4 f kL kR y l ls r rs st)
  let ?tl = "max y (r_top l)" and ?tr = "max y (r_top r)"
  note OP = "4.prems"(1)
  note G = "4.prems"(4)
  have bL: "banded (l # ls)" and bR: "banded (r # rs)" by (fact "4.prems")+
  have yl: "y < r_bottom l" and yr: "y < r_bottom r" using "4.prems"(5,6) by simp_all
  have tl: "?tl < r_bottom l" using yl banded_head_top [OF bL] by simp
  have tr: "?tr < r_bottom r" using yr banded_head_top [OF bR] by simp
  have bl: "banded (if c then afterBand (l # ls) else l # ls)" for c
    using bL by (simp add: banded_afterBand)
  have br: "banded (if c then afterBand (r # rs) else r # rs)" for c
    using bR by (simp add: banded_afterBand)
  have hl: "(if r_bottom l = yb then afterBand (l # ls) else l # ls) \<noteq> [] \<longrightarrow>
      yb < r_bottom (hd (if r_bottom l = yb then afterBand (l # ls) else l # ls))"
    if "yb \<le> r_bottom l" for yb
    using that afterBand_below [OF bL] by auto
  have hr: "(if r_bottom r = yb then afterBand (r # rs) else r # rs) \<noteq> [] \<longrightarrow>
      yb < r_bottom (hd (if r_bottom r = yb then afterBand (r # rs) else r # rs))"
    if "yb \<le> r_bottom r" for yb
    using that afterBand_below [OF bR] by auto
  consider "?tl < ?tr" | "?tr < ?tl" | "?tl = ?tr" by fastforce
  then show ?case
  proof cases
    case 1
    let ?yb = "min (r_bottom l) ?tr"
    have tb: "?tl < ?yb" using 1 tl by simp
    have st': "list_all (\<lambda>q. \<not> rect_isEmpty q)
        (fst (if kL then sliceBand (bandOf (l # ls)) ?tl ?yb st else st))"
      using G tb bL by (simp add: sliceBand_nonempty okband_bandOf)
    have hR: "r # rs \<noteq> [] \<longrightarrow> ?yb < r_bottom (hd (r # rs))"
      using tr by (simp add: min_less_iff_disj)
    show ?thesis
      apply (simp only: bandScan.simps(4) [of f kL kR y l ls r rs st] Let_def)
      apply (simp only: 1 if_True)
      apply (rule "4.IH"(1) [OF refl refl 1 refl OP bl bR st' hl hR])
      apply simp
      done
  next
    case 2
    then have n: "\<not> ?tl < ?tr" using less_asym by blast
    let ?yb = "min (r_bottom r) ?tl"
    have tb: "?tr < ?yb" using 2 tr by simp
    have st': "list_all (\<lambda>q. \<not> rect_isEmpty q)
        (fst (if kR then sliceBand (bandOf (r # rs)) ?tr ?yb st else st))"
      using G tb bR by (simp add: sliceBand_nonempty okband_bandOf)
    have hL: "l # ls \<noteq> [] \<longrightarrow> ?yb < r_bottom (hd (l # ls))"
      using tl by (simp add: min_less_iff_disj)
    show ?thesis
      apply (simp only: bandScan.simps(4) [of f kL kR y l ls r rs st] Let_def)
      apply (simp only: 2 n if_True if_False)
      apply (rule "4.IH"(2) [OF refl refl n 2 refl OP bL br st' hL hr])
      apply simp
      done
  next
    case 3
    then have n: "\<not> ?tl < ?tr" "\<not> ?tr < ?tl" using less_irrefl by metis+
    let ?yb = "min (r_bottom l) (r_bottom r)"
    have tb: "?tl < ?yb" using 3 tl tr by simp
    have st': "list_all (\<lambda>q. \<not> rect_isEmpty q)
        (fst (f (bandOf (l # ls)) (bandOf (r # rs)) ?tl ?yb st))"
      using OP okband_bandOf [OF bL] okband_bandOf [OF bR] tb G by blast
    show ?thesis
      apply (simp only: bandScan.simps(4) [of f kL kR y l ls r rs st] Let_def)
      apply (simp only: n if_False)
      apply (rule "4.IH"(3) [OF refl refl n(1) n(2) refl OP bl br st' hl hr])
       apply simp_all
      done
  qed
qed

lemma scanStart_below:
  "banded L \<Longrightarrow> banded R \<Longrightarrow>
   (L \<noteq> [] \<longrightarrow> scanStart L R < r_bottom (hd L)) \<and> (R \<noteq> [] \<longrightarrow> scanStart L R < r_bottom (hd R))"
  by (cases L; cases R) (auto simp: scanStart_def dest: banded_head_top)

lemma runScan_nonempty:
  assumes "\<And>l r t b st. okband l \<Longrightarrow> okband r \<Longrightarrow> t < b \<Longrightarrow> list_all (\<lambda>q. \<not> rect_isEmpty q) (fst st)
      \<Longrightarrow> list_all (\<lambda>q. \<not> rect_isEmpty q) (fst (f l r t b st))"
    and "banded L" "banded R"
  shows "list_all (\<lambda>q. \<not> rect_isEmpty q) (runScan f kL kR L R)"
  unfolding runScan_def
  using assms(1) scanStart_below [OF assms(2,3)]
  by (intro bandScan_nonempty assms(2,3)) auto

lemma unite_nonempty: "banded L \<Longrightarrow> banded R \<Longrightarrow> list_all (\<lambda>q. \<not> rect_isEmpty q) (unite L R)"
  unfolding unite_def mergeBands_def
  by (rule runScan_nonempty) (auto intro: appendBand_nonempty mergeSpans_spans)

lemma subtract_nonempty: "banded L \<Longrightarrow> banded R \<Longrightarrow> list_all (\<lambda>q. \<not> rect_isEmpty q) (subtract L R)"
  unfolding subtract_def subtractBands_def
  by (rule runScan_nonempty) (auto intro: appendBand_nonempty subtractSpans_spans)

lemma exclusiveOr_nonempty: "banded L \<Longrightarrow> banded R \<Longrightarrow> list_all (\<lambda>q. \<not> rect_isEmpty q) (exclusiveOr L R)"
  unfolding exclusiveOr_def xorBands_def
  by (rule runScan_nonempty) (auto intro: appendBand_nonempty xorSpans_spans)

lemma intersect_nonempty: "banded L \<Longrightarrow> banded R \<Longrightarrow> list_all (\<lambda>q. \<not> rect_isEmpty q) (intersect L R)"
  unfolding intersect_def intersectBands_def
  by (rule runScan_nonempty) (auto intro: appendBand_nonempty intersectSpans_spans)

lemma wellStored_assignSortedRects:
  "list_all (\<lambda>q. \<not> rect_isEmpty q) rs \<Longrightarrow> wellStored (assignSortedRects rs)"
  by (auto simp: wellStored_def assignSortedRects_def Region_empty_def Region_rect_def
      split: list.splits)

lemma wellStored_fromSortedRects:
  "list_all (\<lambda>q. \<not> rect_isEmpty q) rs \<Longrightarrow> wellStored (fromSortedRects rs)"
  by (simp add: fromSortedRects_def wellStored_assignSortedRects)

lemma wellStored_Region_empty: "wellStored Region_empty"
  by (simp add: wellStored_def Region_empty_def)

lemma wellStored_Region_rect: "\<not> rect_isEmpty t \<Longrightarrow> wellStored (Region_rect t)"
  by (simp add: wellStored_def Region_rect_def)

lemma wellStored_operations:
  assumes "banded (rects A)" "banded (rects B)"
  shows "wellStored (united A B)" "wellStored (subtracted A B)"
    "wellStored (xored A B)" "wellStored (intersected A B)"
  using assms
  by (simp_all add: united_def subtracted_def xored_def intersected_def wellStored_assignSortedRects
      unite_nonempty subtract_nonempty exclusiveOr_nonempty intersect_nonempty)

end
